theory Spec2Isabelle
  imports Main "HOL-Library.Multiset" "HOL-Library.Finite_Map"
begin

section \<open>ActivityTracker (src/utils/activityTracker.ts)\<close>

text \<open>
  The durable log maps an account id to three arrays of timestamps. Timestamps are the
  integers of \<^verbatim>\<open>Date.now()\<close> (milliseconds). A field that is absent in the JSON is
  \<open>None\<close>; the source reads such a field through \<^verbatim>\<open>|| []\<close>.
\<close>

datatype action = Likes | Comments | Dms

record account_log =
  likes :: "int list option"
  comments :: "int list option"
  dms :: "int list option"

type_synonym ActivityLog = "string \<rightharpoonup> account_log"

text \<open>
  The file \<^verbatim>\<open>logs/activity_history.json\<close>. \<open>content = None\<close> stands for a file that
  does not exist or does not parse; \<open>writable = False\<close> for a file system on which
  \<^verbatim>\<open>mkdirSync\<close>/\<^verbatim>\<open>writeFileSync\<close> throw.
\<close>

record disk =
  content :: "ActivityLog option"
  writable :: bool

text \<open>An \<^verbatim>\<open>ActivityTracker\<close> object: its account id and its in-memory copy of the log.\<close>

record tracker =
  accountId :: string
  data :: ActivityLog

definition hour :: int where
  "hour = 60 * 60 * 1000"

definition day :: int where
  "day = 24 * 60 * 60 * 1000"

text \<open>\<^verbatim>\<open>loadData\<close>: a missing or unreadable file gives the empty log.\<close>

definition loadData :: "disk \<Rightarrow> ActivityLog" where
  "loadData d = (case content d of None \<Rightarrow> Map.empty | Some l \<Rightarrow> l)"

text \<open>\<^verbatim>\<open>saveData\<close>: a failing write is logged and swallowed, the file stays as it was.\<close>

definition saveData :: "tracker \<Rightarrow> disk \<Rightarrow> disk" where
  "saveData t d = (if writable d then d\<lparr>content := Some (data t)\<rparr> else d)"

definition new_ActivityTracker :: "string \<Rightarrow> disk \<Rightarrow> tracker" where
  "new_ActivityTracker acc d = \<lparr>accountId = acc, data = loadData d\<rparr>"

definition emptyEntry :: account_log where
  "emptyEntry = \<lparr>likes = Some [], comments = Some [], dms = Some []\<rparr>"

fun field :: "action \<Rightarrow> account_log \<Rightarrow> int list option" where
  "field Likes e = likes e"
| "field Comments e = comments e"
| "field Dms e = dms e"

fun set_field :: "action \<Rightarrow> int list \<Rightarrow> account_log \<Rightarrow> account_log" where
  "set_field Likes v e = e\<lparr>likes := Some v\<rparr>"
| "set_field Comments v e = e\<lparr>comments := Some v\<rparr>"
| "set_field Dms v e = e\<lparr>dms := Some v\<rparr>"

text \<open>The JavaScript \<^verbatim>\<open>x || []\<close> on an array that may be undefined.\<close>

definition orEmpty :: "int list option \<Rightarrow> int list" where
  "orEmpty v = (case v of None \<Rightarrow> [] | Some h \<Rightarrow> h)"

text \<open>\<^verbatim>\<open>ensureEntry\<close> is the statement
  \<^verbatim>\<open>if (!this.data[id]) this.data[id] = { likes: [], comments: [], dms: [] }\<close>
  shared by \<^verbatim>\<open>getHistory\<close> and \<^verbatim>\<open>trackAction\<close>.\<close>

definition ensureEntry :: "tracker \<Rightarrow> tracker" where
  "ensureEntry t =
     (case data t (accountId t) of
        None \<Rightarrow> t\<lparr>data := (data t)(accountId t \<mapsto> emptyEntry)\<rparr>
      | Some e \<Rightarrow> t)"

definition getHistory :: "action \<Rightarrow> tracker \<Rightarrow> int list \<times> tracker" where
  "getHistory a t =
     (let t' = ensureEntry t in
      (case data t' (accountId t') of
         None \<Rightarrow> []
       | Some e \<Rightarrow> orEmpty (field a e), t'))"

definition cleanOldEntries :: "int \<Rightarrow> tracker \<Rightarrow> tracker" where
  "cleanOldEntries now t =
     (let cutoff = now - day in
      (case data t (accountId t) of
         None \<Rightarrow> t
       | Some e \<Rightarrow>
           t\<lparr>data := (data t)(accountId t \<mapsto>
                \<lparr>likes = Some (filter (\<lambda>x. x > cutoff) (orEmpty (likes e))),
                 comments = Some (filter (\<lambda>x. x > cutoff) (orEmpty (comments e))),
                 dms = Some (filter (\<lambda>x. x > cutoff) (orEmpty (dms e)))\<rparr>)\<rparr>))"

text \<open>
  The public methods take the clock reading \<open>now\<close> (the value of \<^verbatim>\<open>Date.now()\<close>, held
  fixed during one call), the tracker object and the disk, and return their result with
  the tracker and the disk as the call leaves them.
\<close>

definition canPerformAction ::
  "int \<Rightarrow> action \<Rightarrow> int \<Rightarrow> tracker \<Rightarrow> disk \<Rightarrow> bool \<times> tracker \<times> disk" where
  "canPerformAction now a limitPerHour t d =
     (let t1 = t\<lparr>data := loadData d\<rparr>;
          t2 = cleanOldEntries now t1;
          (history, t3) = getHistory a t2;
          oneHourAgo = now - hour;
          recentActions = filter (\<lambda>x. x > oneHourAgo) history
      in (int (length recentActions) < limitPerHour, t3, d))"

definition trackAction :: "int \<Rightarrow> action \<Rightarrow> tracker \<Rightarrow> disk \<Rightarrow> tracker \<times> disk" where
  "trackAction now a t d =
     (let t1 = t\<lparr>data := loadData d\<rparr>;
          t2 = ensureEntry t1;
          t3 = (case data t2 (accountId t2) of
                  None \<Rightarrow> t2
                | Some e \<Rightarrow>
                    t2\<lparr>data := (data t2)(accountId t2 \<mapsto>
                          set_field a (orEmpty (field a e) @ [now]) e)\<rparr>)
      in (t3, saveData t3 d))"

definition getRecentCount :: "int \<Rightarrow> action \<Rightarrow> tracker \<Rightarrow> disk \<Rightarrow> nat \<times> tracker \<times> disk" where
  "getRecentCount now a t d =
     (let t1 = t\<lparr>data := loadData d\<rparr>;
          (history, t2) = getHistory a t1;
          oneHourAgo = now - hour
      in (length (filter (\<lambda>x. x > oneHourAgo) history), t2, d))"

text \<open>
  In \<^verbatim>\<open>getTimeUntilAvailable\<close> the branch \<open>[]\<close> of the case is the source reading
  \<^verbatim>\<open>recentActions[0]\<close> of an empty array (possible when the limit is not positive):
  the value is \<^verbatim>\<open>undefined\<close>, the arithmetic gives NaN, \<^verbatim>\<open>NaN > 0\<close> is false and
  the method returns 0.
\<close>

definition getTimeUntilAvailable ::
  "int \<Rightarrow> action \<Rightarrow> int \<Rightarrow> tracker \<Rightarrow> disk \<Rightarrow> int \<times> tracker \<times> disk" where
  "getTimeUntilAvailable now a limitPerHour t d =
     (let t1 = t\<lparr>data := loadData d\<rparr>;
          (history, t2) = getHistory a t1;
          oneHourAgo = now - hour;
          recentActions = filter (\<lambda>x. x > oneHourAgo) history
      in if int (length recentActions) < limitPerHour then (0, t2, d)
         else (case sort recentActions of
                 [] \<Rightarrow> (0, t2, d)
               | oldestRelevantAction # rest \<Rightarrow>
                   (let nextSlotTime = oldestRelevantAction + hour;
                        waitTime = nextSlotTime - now
                    in (if waitTime > 0 then waitTime else 0, t2, d))))"

text \<open>
  The records the durable log holds for an account and an action type, as a reader of
  the file sees them (an unreadable file reads as the empty log).
\<close>

definition recorded :: "disk \<Rightarrow> string \<Rightarrow> action \<Rightarrow> int list" where
  "recorded d acc a =
     (case loadData d acc of None \<Rightarrow> [] | Some e \<Rightarrow> orEmpty (field a e))"

text \<open>The trailing-hour window of the specification: the records in \<open>(now - 1h, now]\<close>.\<close>

definition window :: "int \<Rightarrow> int list \<Rightarrow> int list" where
  "window now h = filter (\<lambda>x. now - hour < x \<and> x \<le> now) h"

text \<open>The queries of the tracker, for sequences of calls.\<close>

datatype query =
  CanPerformAction action int
| GetRecentCount action
| GetTimeUntilAvailable action int

fun runQuery :: "int \<times> query \<Rightarrow> tracker \<times> disk \<Rightarrow> tracker \<times> disk" where
  "runQuery (now, CanPerformAction a l) (t, d) = snd (canPerformAction now a l t d)"
| "runQuery (now, GetRecentCount a) (t, d) = snd (getRecentCount now a t d)"
| "runQuery (now, GetTimeUntilAvailable a l) (t, d) = snd (getTimeUntilAvailable now a l t d)"

definition runQueries :: "(int \<times> query) list \<Rightarrow> tracker \<times> disk \<Rightarrow> tracker \<times> disk" where
  "runQueries qs s = fold runQuery qs s"

section \<open>pLimit, the concurrency limiter (src/utils)\<close>

text \<open>
  JavaScript runs each synchronous stretch of code to completion, so the limiter is a
  transition system whose steps are the two stretches of the source: a call of
  \<^verbatim>\<open>enqueue\<close>, and the continuation of \<^verbatim>\<open>run\<close> after its \<^verbatim>\<open>await\<close>, which
  runs when the task's own promise has settled. The closure variables \<^verbatim>\<open>concurrency\<close>,
  \<^verbatim>\<open>activeCount\<close> and \<^verbatim>\<open>queue\<close> are fields of the state. Three further fields
  observe what the source does and are read by no operation: \<open>running\<close>, the tasks whose
  function has been called and whose continuation has not run yet; \<open>started\<close>, the tasks
  in the order in which their function was called; \<open>settled\<close>, each call of
  \<^verbatim>\<open>resolve\<close> or \<^verbatim>\<open>reject\<close> with the task whose promise it settles.
\<close>

datatype error = Error string

datatype 'v settlement = Fulfilled 'v | Rejected error

record ('t, 'v) limiter =
  concurrency :: int
  activeCount :: int
  queue :: "'t list"
  running :: "'t list"
  started :: "'t list"
  settled :: "('t \<times> 'v settlement) list"

definition pLimit :: "int \<Rightarrow> ('t, 'v) limiter" where
  "pLimit n = \<lparr>concurrency = n, activeCount = 0, queue = [], running = [], started = [],
               settled = []\<rparr>"

text \<open>\<^verbatim>\<open>run\<close> up to its \<^verbatim>\<open>await\<close>: count the task and call its function.\<close>

definition run :: "'t \<Rightarrow> ('t, 'v) limiter \<Rightarrow> ('t, 'v) limiter" where
  "run t g = g\<lparr>activeCount := activeCount g + 1,
               running := running g @ [t],
               started := started g @ [t]\<rparr>"

text \<open>\<^verbatim>\<open>next\<close> (renamed, \<open>next\<close> being a keyword): free the slot and start the head of the queue.\<close>

definition next_task :: "('t, 'v) limiter \<Rightarrow> ('t, 'v) limiter" where
  "next_task g =
     (let g1 = g\<lparr>activeCount := activeCount g - 1\<rparr> in
      (case queue g1 of
         [] \<Rightarrow> g1
       | nextTask # rest \<Rightarrow> run nextTask (g1\<lparr>queue := rest\<rparr>)))"

definition enqueue :: "'t \<Rightarrow> ('t, 'v) limiter \<Rightarrow> ('t, 'v) limiter" where
  "enqueue t g =
     (if activeCount g < concurrency g then run t g
      else g\<lparr>queue := queue g @ [t]\<rparr>)"

text \<open>
  The continuation of \<^verbatim>\<open>run\<close>: \<^verbatim>\<open>resolve(value)\<close> in the \<^verbatim>\<open>try\<close>,
  \<^verbatim>\<open>reject(err)\<close> in the \<^verbatim>\<open>catch\<close>, and \<^verbatim>\<open>next()\<close> in the \<^verbatim>\<open>finally\<close>.
\<close>

definition run_continue :: "'t \<Rightarrow> 'v settlement \<Rightarrow> ('t, 'v) limiter \<Rightarrow> ('t, 'v) limiter" where
  "run_continue t r g =
     next_task (g\<lparr>running := remove1 t (running g), settled := settled g @ [(t, r)]\<rparr>)"

text \<open>
  The events of an execution: a caller submits a task, or the promise of a task that is
  running settles with a result. The second is possible only for a running task.
\<close>

datatype ('t, 'v) event = Submit 't | Settle 't "'v settlement"

fun step :: "('t, 'v) limiter \<Rightarrow> ('t, 'v) event \<Rightarrow> ('t, 'v) limiter" where
  "step g (Submit t) = enqueue t g"
| "step g (Settle t r) = (if t \<in> set (running g) then run_continue t r g else g)"

definition exec :: "('t, 'v) event list \<Rightarrow> ('t, 'v) limiter \<Rightarrow> ('t, 'v) limiter" where
  "exec es g = foldl step g es"

fun submitted :: "('t, 'v) event list \<Rightarrow> 't list" where
  "submitted [] = []"
| "submitted (Submit t # es) = t # submitted es"
| "submitted (Settle t r # es) = submitted es"

text \<open>
  \<open>drain\<close> lets the promise of the longest-running task settle, with the result \<open>res\<close>
  gives for it, until no task is running. It stands for the assumption that every task
  that was started returns.
\<close>

function drain :: "('t \<Rightarrow> 'v settlement) \<Rightarrow> ('t, 'v) limiter \<Rightarrow> ('t, 'v) limiter" where
  "drain res g =
     (case running g of
        [] \<Rightarrow> g
      | t # ts \<Rightarrow> drain res (run_continue t (res t) g))"
  by pat_completeness auto
termination
  by (relation "measure (\<lambda>(res, g). length (running g) + 2 * length (queue g))")
     (auto simp: run_continue_def next_task_def run_def Let_def split: list.splits)

declare drain.simps [simp del]

text \<open>
  The invariant of the limiter after the submissions \<open>subs\<close>: the counter is the number of
  running tasks; the started tasks followed by the queue are the submissions in their
  order; a task waits only while the counter has reached the limit; the counter does not
  exceed a limit that is not negative; every started task is running or settled.
\<close>

definition limiter_ok :: "int \<Rightarrow> 't list \<Rightarrow> ('t, 'v) limiter \<Rightarrow> bool" where
  "limiter_ok n subs g \<longleftrightarrow>
     concurrency g = n
     \<and> activeCount g = int (length (running g))
     \<and> started g @ queue g = subs
     \<and> (queue g = [] \<or> n \<le> activeCount g)
     \<and> (n < 0 \<or> activeCount g \<le> n)
     \<and> mset (started g) = mset (running g) + mset (map fst (settled g))"

section \<open>IgClient: launching and closing the browser (IgClient.ts, browserHelper.ts)\<close>

text \<open>
  The model follows the version of \<^verbatim>\<open>IgClient\<close> that has the method
  \<^verbatim>\<open>isConnected\<close> which \<^verbatim>\<open>app.ts\<close> calls. Of \<^verbatim>\<open>init\<close> it keeps the control flow
  around the launch: the early return, the proactive cleanup, the retry loop, and the
  check after the loop. The launch options and the logging are left out; what the browser
  library and the pages do is given by the caller (\<open>launch_outcome\<close>, and an optional
  error for the rest of \<^verbatim>\<open>init\<close>).
\<close>

datatype platform = Win32 | Linux | OtherPlatform

text \<open>
  The functions of Node's \<^verbatim>\<open>path\<close> module are parameters: \<open>resolve p\<close> is
  \<^verbatim>\<open>path.resolve(process.cwd(), p)\<close>.
\<close>

record env =
  platform :: platform
  resolve :: "string \<Rightarrow> string"
  basename :: "string \<Rightarrow> string"
  join :: "string \<Rightarrow> string \<Rightarrow> string"

text \<open>
  The two shell commands of \<^verbatim>\<open>killChromeProcessByProfile\<close>:
  \<^verbatim>\<open>wmic process where "name='chrome.exe' and commandline like '%user-data-dir=P%'" delete\<close>
  and \<^verbatim>\<open>pkill -f "F"\<close>.
\<close>

datatype command = WmicDeleteChrome string | PkillF string

datatype io =
  Mkdir string
| Launch
| CloseBrowser
| Exec command
| Unlink string
| Sleep int

text \<open>
  The part of the operating system the launch touches: the files that exist, those among
  them whose \<^verbatim>\<open>unlink\<close> fails, and the trace of what the client did.
\<close>

record os_state =
  files :: "string set"
  undeletable :: "string set"
  trace :: "io list"

definition emit :: "io \<Rightarrow> os_state \<Rightarrow> os_state" where
  "emit e os = os\<lparr>trace := trace os @ [e]\<rparr>"

text \<open>\<^verbatim>\<open>absolutePath.replace(/\\/g, '\\\\')\<close>: every backslash is doubled.\<close>

definition escapeBackslashes :: "string \<Rightarrow> string" where
  "escapeBackslashes p = concat (map (\<lambda>c. if c = CHR 0x5C then [c, c] else [c]) p)"

text \<open>
  The command \<^verbatim>\<open>killChromeProcessByProfile\<close> runs; on a platform other than Windows
  and Linux it runs none. The callback of \<^verbatim>\<open>exec\<close> resolves whatever the command
  reports.
\<close>

definition killCommand :: "env \<Rightarrow> string \<Rightarrow> command option" where
  "killCommand E userDataDir =
     (let absolutePath = resolve E userDataDir;
          profileFolder = basename E absolutePath
      in (case platform E of
            Win32 \<Rightarrow> Some (WmicDeleteChrome (escapeBackslashes absolutePath))
          | Linux \<Rightarrow> Some (PkillF profileFolder)
          | OtherPlatform \<Rightarrow> None))"

definition killChromeProcessByProfile :: "env \<Rightarrow> string \<Rightarrow> os_state \<Rightarrow> os_state" where
  "killChromeProcessByProfile E userDataDir os =
     (case killCommand E userDataDir of
        None \<Rightarrow> os
      | Some cmd \<Rightarrow> emit (Exec cmd) os)"

text \<open>
  An \<^verbatim>\<open>IgClient\<close> object. \<open>browser = None\<close> is \<^verbatim>\<open>this.browser === null\<close>;
  \<open>Some b\<close> is a browser object whose \<^verbatim>\<open>isConnected()\<close> answers \<open>b\<close>.
\<close>

record ig_client =
  userDataDir :: "string option"
  browser :: "bool option"
  page :: bool

definition new_IgClient :: "string option \<Rightarrow> ig_client" where
  "new_IgClient dir = \<lparr>userDataDir = dir, browser = None, page = False\<rparr>"

definition isConnected :: "ig_client \<Rightarrow> bool" where
  "isConnected c = (browser c = Some True)"

text \<open>\<^verbatim>\<open>if (this.userDataDir)\<close>: an undefined or empty string is falsy.\<close>

definition profileDir :: "ig_client \<Rightarrow> string option" where
  "profileDir c =
     (case userDataDir c of
        None \<Rightarrow> None
      | Some d \<Rightarrow> if d = [] then None else Some d)"

datatype launch_outcome = LaunchOk | LaunchFails error | NewPageFails error

definition maxAttempts :: nat where
  "maxAttempts = 5"

definition lockFiles :: "string list" where
  "lockFiles = [''SingletonLock'', ''SingletonCookie'', ''SingletonSocket'']"

text \<open>One round of the loop over \<^verbatim>\<open>lockFiles\<close>: unlink the file if \<^verbatim>\<open>stat\<close> finds it;
  a failing \<^verbatim>\<open>unlink\<close> is caught.\<close>

definition unlinkIfPresent :: "string \<Rightarrow> os_state \<Rightarrow> os_state" where
  "unlinkIfPresent lockPath os =
     (if lockPath \<in> files os \<and> lockPath \<notin> undeletable os
      then emit (Unlink lockPath) (os\<lparr>files := files os - {lockPath}\<rparr>)
      else os)"

text \<open>The block \<^verbatim>\<open>FORCE CLEANUP\<close> of the \<^verbatim>\<open>catch\<close>.\<close>

definition forceCleanup :: "env \<Rightarrow> ig_client \<Rightarrow> os_state \<Rightarrow> os_state" where
  "forceCleanup E c os =
     (case profileDir c of
        None \<Rightarrow> os
      | Some d \<Rightarrow>
          fold (\<lambda>file. unlinkIfPresent (join E (resolve E d) file)) lockFiles
            (killChromeProcessByProfile E d os))"

text \<open>The \<^verbatim>\<open>try\<close> block of one attempt: the error it throws, if any, and the client.\<close>

fun tryLaunch :: "launch_outcome \<Rightarrow> ig_client \<Rightarrow> error option \<times> ig_client" where
  "tryLaunch LaunchOk c = (None, c\<lparr>browser := Some True, page := True\<rparr>)"
| "tryLaunch (LaunchFails err) c = (Some err, c)"
| "tryLaunch (NewPageFails err) c = (Some err, c\<lparr>browser := Some True\<rparr>)"

text \<open>\<^verbatim>\<open>if (this.browser) { await this.browser.close().catch(...); this.browser = null; }\<close>\<close>

definition closeIfOpen :: "ig_client \<times> os_state \<Rightarrow> ig_client \<times> os_state" where
  "closeIfOpen s =
     (case s of (c, os) \<Rightarrow>
        if browser c \<noteq> None then (c\<lparr>browser := None\<rparr>, emit CloseBrowser os) else (c, os))"

text \<open>
  The loop \<^verbatim>\<open>while (attempt < maxAttempts)\<close>. \<open>outcome k\<close> is what the launch of the
  attempt with index \<open>k\<close> (from 0) does. \<open>Inl err\<close> is the \<^verbatim>\<open>throw err\<close> of the last
  attempt.
\<close>

function launchLoop ::
  "env \<Rightarrow> (nat \<Rightarrow> launch_outcome) \<Rightarrow> nat \<Rightarrow> ig_client \<times> os_state
     \<Rightarrow> (error + unit) \<times> ig_client \<times> os_state" where
  "launchLoop E outcome attempt (c, os) =
     (if attempt < maxAttempts then
        (case tryLaunch (outcome attempt) c of
           (None, c1) \<Rightarrow> (Inr (), c1, emit Launch os)
         | (Some err, c1) \<Rightarrow>
             (case closeIfOpen (c1, emit Launch os) of (c2, os2) \<Rightarrow>
                if attempt + 1 \<ge> maxAttempts then (Inl err, c2, os2)
                else launchLoop E outcome (attempt + 1)
                       (c2, emit (Sleep (8000 + int (attempt + 1) * 2000)) (forceCleanup E c2 os2))))
      else (Inr (), c, os))"
  by pat_completeness auto
termination
  by (relation "measure (\<lambda>(E, outcome, attempt, s). maxAttempts - attempt)") auto

declare launchLoop.simps [simp del]

definition init ::
  "env \<Rightarrow> (nat \<Rightarrow> launch_outcome) \<Rightarrow> error option \<Rightarrow> ig_client \<times> os_state
     \<Rightarrow> (error + unit) \<times> ig_client \<times> os_state" where
  "init E outcome rest s =
     (case s of (c, os) \<Rightarrow>
        if isConnected c then (Inr (), c, os)
        else
          (let os1 = (case profileDir c of
                        None \<Rightarrow> os
                      | Some d \<Rightarrow>
                          emit (Sleep 2000)
                            (killChromeProcessByProfile E d (emit (Mkdir (resolve E d)) os)))
           in (case launchLoop E outcome 0 (c, os1) of
                 (Inl err, c1, os2) \<Rightarrow> (Inl err, c1, os2)
               | (Inr u, c1, os2) \<Rightarrow>
                   if browser c1 = None \<or> \<not> page c1
                   then (Inl (Error ''Browser/Page failed to initialize after multiple attempts.''),
                         c1, os2)
                   else (case rest of
                           Some err \<Rightarrow> (Inl err, c1, os2)
                         | None \<Rightarrow> (Inr (), c1, os2)))))"

text \<open>\<^verbatim>\<open>close\<close>: errors of the browser are caught inside, so it never throws.\<close>

definition close :: "ig_client \<times> os_state \<Rightarrow> ig_client \<times> os_state" where
  "close s =
     (case s of (c, os) \<Rightarrow>
        if browser c \<noteq> None then (c\<lparr>browser := None, page := False\<rparr>, emit CloseBrowser os)
        else (c, os))"

section \<open>processAccount (src/app.ts)\<close>

text \<open>
  \<^verbatim>\<open>behavior\<close> and \<^verbatim>\<open>limits\<close> are the merged settings of the account. A flag that is
  absent from the settings is \<open>None\<close>: the source tests likes and comments with
  \<^verbatim>\<open>!== false\<close> and direct messages with \<^verbatim>\<open>=== true\<close>.
\<close>

record account =
  acc_id :: string
  acc_username :: string
  acc_userDataDir :: "string option"

record behavior =
  enableLikes :: "bool option"
  enableComments :: "bool option"
  enableAutoDMs :: "bool option"

record limits =
  likesPerHour :: int
  commentsPerHour :: int
  dmsPerHour :: "int option"

definition likesEnabled :: "behavior \<Rightarrow> bool" where
  "likesEnabled b = (enableLikes b \<noteq> Some False)"

definition commentsEnabled :: "behavior \<Rightarrow> bool" where
  "commentsEnabled b = (enableComments b \<noteq> Some False)"

definition dmsEnabled :: "behavior \<Rightarrow> bool" where
  "dmsEnabled b = (enableAutoDMs b = Some True)"

text \<open>\<^verbatim>\<open>limits.dmsPerHour || 20\<close>\<close>

definition dmLimit :: "limits \<Rightarrow> int" where
  "dmLimit l = (case dmsPerHour l of None \<Rightarrow> 20 | Some n \<Rightarrow> if n = 0 then 20 else n)"

text \<open>
  The state the accounts share: the activity log on disk, the registry
  \<^verbatim>\<open>activeSessions\<close>, the client objects (a handle is the identity of an object,
  \<open>next_handle\<close> the next one \<^verbatim>\<open>new IgClient\<close> gives out), the operating system, and
  what was logged as an error or sent as an alert.
\<close>

record world =
  log_file :: disk
  activeSessions :: "(string, nat) fmap"
  clients :: "nat \<Rightarrow> ig_client"
  next_handle :: nat
  os :: os_state
  error_log :: "(string \<times> error) list"
  alerts :: "(string \<times> error) list"

text \<open>
  What the collaborators do during one call of \<^verbatim>\<open>processAccount\<close>: the clock at the
  pre-run check and in the \<^verbatim>\<open>finally\<close> block, the launches, the rest of \<^verbatim>\<open>init\<close>,
  and for each interaction the actions it tracks (with their clock readings) and the error
  it throws, if any.
\<close>

record interaction =
  tracked :: "(int \<times> action) list"
  thrown :: "error option"

record cycle =
  now_check :: int
  now_close :: int
  launches :: "nat \<Rightarrow> launch_outcome"
  init_rest :: "error option"
  dm_check :: interaction
  interact :: interaction


text \<open>\<^verbatim>\<open>account.userDataDir ? path.basename(account.userDataDir) : account.username\<close>\<close>

definition trackerId :: "env \<Rightarrow> account \<Rightarrow> string" where
  "trackerId E acc =
     (case acc_userDataDir acc of
        None \<Rightarrow> acc_username acc
      | Some d \<Rightarrow> if d = [] then acc_username acc else basename E d)"

text \<open>The three waits of the pre-run availability check.\<close>

record waits =
  msToNextLike :: int
  msToNextComment :: int
  msToNextDM :: int

definition preRunCheck :: "behavior \<Rightarrow> limits \<Rightarrow> int \<Rightarrow> tracker \<Rightarrow> disk \<Rightarrow> waits" where
  "preRunCheck b l now t d =
     \<lparr>msToNextLike =
        (if likesEnabled b then fst (getTimeUntilAvailable now Likes (likesPerHour l) t d) else 0),
      msToNextComment =
        (if commentsEnabled b then fst (getTimeUntilAvailable now Comments (commentsPerHour l) t d)
         else 0),
      msToNextDM =
        (if dmsEnabled b then fst (getTimeUntilAvailable now Dms (dmLimit l) t d) else 0)\<rparr>"

definition isBlocked :: "behavior \<Rightarrow> waits \<Rightarrow> bool" where
  "isBlocked b ms =
     (\<not> (likesEnabled b \<and> msToNextLike ms = 0)
      \<and> \<not> (commentsEnabled b \<and> msToNextComment ms = 0)
      \<and> \<not> (dmsEnabled b \<and> msToNextDM ms = 0))"



text \<open>Closing the client behind a handle and dropping the account from the registry.\<close>

definition closeClient :: "nat \<Rightarrow> world \<Rightarrow> world" where
  "closeClient h w =
     (case close (clients w h, os w) of
        (c, os') \<Rightarrow> w\<lparr>clients := (clients w)(h := c), os := os'\<rparr>)"

definition deleteSession :: "account \<Rightarrow> world \<Rightarrow> world" where
  "deleteSession acc w = w\<lparr>activeSessions := fmdrop (acc_id acc) (activeSessions w)\<rparr>"


text \<open>The block \<^verbatim>\<open>REUSE OR CREATE CLIENT\<close>: the handle of the client to use.\<close>

definition acquire :: "account \<Rightarrow> world \<Rightarrow> nat \<times> world" where
  "acquire acc w =
     (let igClient = fmlookup (activeSessions w) (acc_id acc);
          (igClient1, w1) =
             (case igClient of
                Some h \<Rightarrow> if \<not> isConnected (clients w h) then (None, deleteSession acc w)
                          else (Some h, w)
              | None \<Rightarrow> (None, w))
      in (case igClient1 of
            None \<Rightarrow>
              (let h = next_handle w1 in
               (h, w1\<lparr>clients := (clients w1)(h := new_IgClient (acc_userDataDir acc)),
                      next_handle := h + 1,
                      activeSessions := fmupd (acc_id acc) h (activeSessions w1)\<rparr>))
          | Some h \<Rightarrow> (h, w1)))"

text \<open>
  An interaction of the client with the site: it records its actions through its own
  tracker, which has the same account id, and then throws or returns.
\<close>

definition trackAll :: "string \<Rightarrow> (int \<times> action) list \<Rightarrow> disk \<Rightarrow> disk" where
  "trackAll tid acts d =
     fold (\<lambda>(now, a) d'. snd (trackAction now a (new_ActivityTracker tid d') d')) acts d"

definition perform :: "string \<Rightarrow> interaction \<Rightarrow> world \<Rightarrow> (error + unit) \<times> world" where
  "perform tid i w =
     (let w' = w\<lparr>log_file := trackAll tid (tracked i) (log_file w)\<rparr> in
      (case thrown i of Some err \<Rightarrow> (Inl err, w') | None \<Rightarrow> (Inr (), w')))"

text \<open>The inner \<^verbatim>\<open>try\<close> block: \<^verbatim>\<open>init\<close>, the check of direct messages, the interaction.\<close>

definition session ::
  "env \<Rightarrow> account \<Rightarrow> behavior \<Rightarrow> cycle \<Rightarrow> nat \<Rightarrow> world \<Rightarrow> (error + unit) \<times> world" where
  "session E acc b cy h w =
     (case init E (launches cy) (init_rest cy) (clients w h, os w) of
        (Inl err, c, os') \<Rightarrow> (Inl err, w\<lparr>clients := (clients w)(h := c), os := os'\<rparr>)
      | (Inr u, c, os') \<Rightarrow>
          (let w1 = w\<lparr>clients := (clients w)(h := c), os := os'\<rparr>;
               (r, w2) = (if enableAutoDMs b = Some True
                          then perform (trackerId E acc) (dm_check cy) w1
                          else (Inr (), w1))
           in (case r of
                 Inl err \<Rightarrow> (Inl err, w2)
               | Inr u' \<Rightarrow> perform (trackerId E acc) (interact cy) w2)))"

text \<open>The decision of the \<^verbatim>\<open>finally\<close> block (\<^verbatim>\<open>SMART CLOSE\<close>).\<close>

definition limitsReachedNow :: "behavior \<Rightarrow> int \<Rightarrow> int \<Rightarrow> bool" where
  "limitsReachedNow b nextLike nextComment =
     (if enableLikes b \<noteq> Some False \<and> nextLike > 0
      then (enableComments b = Some False \<or> nextComment > 0)
      else if enableComments b \<noteq> Some False \<and> nextComment > 0
      then (enableLikes b = Some False \<or> nextLike > 0)
      else False)"

text \<open>
  \<open>maxSessions\<close> is \<^verbatim>\<open>parseInt(process.env.MAX_CONCURRENT_SESSIONS || '5')\<close>, with
  \<open>None\<close> for NaN, against which every comparison is false.
\<close>

definition shouldClose :: "int option \<Rightarrow> behavior \<Rightarrow> limits \<Rightarrow> int \<Rightarrow> tracker \<Rightarrow> world \<Rightarrow> bool" where
  "shouldClose maxSessions b l now t w =
     (let nextLike =
            (if likesEnabled b
             then fst (getTimeUntilAvailable now Likes (likesPerHour l) t (log_file w)) else 0);
          nextComment =
            (if commentsEnabled b
             then fst (getTimeUntilAvailable now Comments (commentsPerHour l) t (log_file w))
             else 0)
      in limitsReachedNow b nextLike nextComment
         \<and> (case maxSessions of
               None \<Rightarrow> False
             | Some m \<Rightarrow> int (fcard (fmdom (activeSessions w))) \<ge> m))"

definition smartClose ::
  "int option \<Rightarrow> account \<Rightarrow> behavior \<Rightarrow> limits \<Rightarrow> int \<Rightarrow> tracker \<Rightarrow> nat \<Rightarrow> world \<Rightarrow> world" where
  "smartClose maxSessions acc b l now t igClient w =
     (if shouldClose maxSessions b l now t w
      then deleteSession acc (closeClient igClient w)
      else w)"




section \<open>Notions used to state the properties\<close>

text \<open>
  A registry is well formed when every registered handle has been given out and no handle
  is registered under two accounts.
\<close>

definition registry_ok :: "world \<Rightarrow> bool" where
  "registry_ok w \<longleftrightarrow>
     (\<forall>a h. fmlookup (activeSessions w) a = Some h \<longrightarrow> h < next_handle w)
     \<and> (\<forall>a a' h. fmlookup (activeSessions w) a = Some h \<and> fmlookup (activeSessions w) a' = Some h
           \<longrightarrow> a = a')"

text \<open>The error with which a launch fails, if it does.\<close>

fun failure :: "launch_outcome \<Rightarrow> error option" where
  "failure LaunchOk = None"
| "failure (LaunchFails err) = Some err"
| "failure (NewPageFails err) = Some err"

text \<open>
  The number of retries of the loop started at the attempt with index \<open>a\<close>: the failed
  attempts before the first success, the last possible attempt not counted.
\<close>

definition retriesFrom :: "(nat \<Rightarrow> launch_outcome) \<Rightarrow> nat \<Rightarrow> nat" where
  "retriesFrom outcome a =
     length (takeWhile (\<lambda>k. failure (outcome k) \<noteq> None) [a..<maxAttempts - 1])"

text \<open>The launches, shell commands and pauses of a trace, in their order.\<close>

fun is_step :: "io \<Rightarrow> bool" where
  "is_step Launch = True"
| "is_step (Exec cmd) = True"
| "is_step (Sleep ms) = True"
| "is_step (Mkdir p) = False"
| "is_step CloseBrowser = False"
| "is_step (Unlink p) = False"

definition steps :: "io list \<Rightarrow> io list" where
  "steps tr = filter is_step tr"

text \<open>What the kill of the profile's processes adds to the trace of a client.\<close>

definition killEvents :: "env \<Rightarrow> ig_client \<Rightarrow> io list" where
  "killEvents E c =
     (case profileDir c of
        None \<Rightarrow> []
      | Some d \<Rightarrow> (case killCommand E d of None \<Rightarrow> [] | Some cmd \<Rightarrow> [Exec cmd]))"

text \<open>The lock files of a client's profile directory.\<close>

definition lockPaths :: "env \<Rightarrow> ig_client \<Rightarrow> string set" where
  "lockPaths E c =
     (case profileDir c of
        None \<Rightarrow> {}
      | Some d \<Rightarrow> set (map (join E (resolve E d)) lockFiles))"

text \<open>
  \<open>untouched a H w w'\<close>: from \<open>w\<close> to \<open>w'\<close> the registry changed at most for the account
  \<open>a\<close> and the client objects at most behind the handles in \<open>H\<close>.
\<close>

definition untouched :: "string \<Rightarrow> nat set \<Rightarrow> world \<Rightarrow> world \<Rightarrow> bool" where
  "untouched a H w w' \<longleftrightarrow>
     (\<forall>a'. a' \<noteq> a \<longrightarrow> fmlookup (activeSessions w') a' = fmlookup (activeSessions w) a')
     \<and> (\<forall>h. h \<notin> H \<longrightarrow> clients w' h = clients w h)"

text \<open>The handles a call of \<^verbatim>\<open>processAccount\<close> for an account may use: the one registered
  for the account and the next one to be given out.\<close>

definition ownHandles :: "account \<Rightarrow> world \<Rightarrow> nat set" where
  "ownHandles acc w =
     (case fmlookup (activeSessions w) (acc_id acc) of
        None \<Rightarrow> {next_handle w}
      | Some h \<Rightarrow> {h, next_handle w})"

text \<open>
  What the retry loop, started at the attempt with index \<open>a\<close> in the state \<open>s\<close>, has
  done when it ends with \<open>result\<close>: the launches, kills and pauses it added to the trace;
  whether it returned or threw; that it threw only after the last attempt; that it kept the
  profile directory, created no file and deleted, once it retried, every lock file that can
  be deleted; and the state of the browser.
\<close>

definition loop_post ::
  "env \<Rightarrow> (nat \<Rightarrow> launch_outcome) \<Rightarrow> nat \<Rightarrow> ig_client \<times> os_state
     \<Rightarrow> (error + unit) \<times> ig_client \<times> os_state \<Rightarrow> bool" where
  "loop_post E outcome a s result \<longleftrightarrow>
     (case s of (c, ost) \<Rightarrow> case result of (res, c', ost') \<Rightarrow>
        steps (trace ost') = steps (trace ost) @
          Launch # concat (map (\<lambda>j. killEvents E c @ [Sleep (8000 + 2000 * int j), Launch])
                              [a + 1 ..< a + 1 + retriesFrom outcome a])
        \<and> res = (case failure (outcome (a + retriesFrom outcome a)) of
                    None \<Rightarrow> Inr () | Some err \<Rightarrow> Inl err)
        \<and> (failure (outcome (a + retriesFrom outcome a)) \<noteq> None
              \<longrightarrow> a + retriesFrom outcome a = maxAttempts - 1)
        \<and> profileDir c' = profileDir c
        \<and> files ost' \<subseteq> files ost
        \<and> undeletable ost' = undeletable ost
        \<and> (0 < retriesFrom outcome a \<longrightarrow>
              (\<forall>p \<in> lockPaths E c. p \<in> files ost' \<longrightarrow> p \<in> undeletable ost))
        \<and> (failure (outcome (a + retriesFrom outcome a)) = None
              \<longrightarrow> browser c' = Some True \<and> page c')
        \<and> (failure (outcome (a + retriesFrom outcome a)) \<noteq> None \<longrightarrow> browser c' = None))"

section \<open>Concrete inputs\<close>

text \<open>
  The scenario of the specification: ten likes of account \<open>a1\<close>, five minutes apart, the
  oldest 55 minutes and the newest 10 minutes before the clock reading \<open>3600000\<close>.
\<close>

definition scenario_disk :: disk where
  "scenario_disk =
     \<lparr>content = Some (Map.empty(''a1'' \<mapsto>
        \<lparr>likes = Some [300000, 600000, 900000, 1200000, 1500000,
                        1800000, 2100000, 2400000, 2700000, 3000000],
         comments = Some [], dms = None\<rparr>)),
      writable = True\<rparr>"

definition scenario_tracker :: tracker where
  "scenario_tracker = \<lparr>accountId = ''a1'', data = Map.empty\<rparr>"

definition empty_disk :: disk where
  "empty_disk = \<lparr>content = None, writable = True\<rparr>"

definition future_disk :: disk where
  "future_disk =
     \<lparr>content = Some (Map.empty(''a1'' \<mapsto>
        \<lparr>likes = Some [2000], comments = Some [], dms = Some []\<rparr>)),
      writable = True\<rparr>"

text \<open>
  A Linux host and a host of another platform, with the application in \<open>/app\<close>; the
  base name of a path is what follows its last slash.
\<close>

definition linux_env :: env where
  "linux_env =
     \<lparr>platform = Linux,
      resolve = (\<lambda>p. ''/app/'' @ p),
      basename = (\<lambda>p. rev (takeWhile (\<lambda>c. c \<noteq> CHR ''/'') (rev p))),
      join = (\<lambda>a b. a @ ''/'' @ b)\<rparr>"


definition stale_os :: os_state where
  "stale_os = \<lparr>files = {''/app/profiles/acc1/SingletonLock''}, undeletable = {}, trace = []\<rparr>"

definition acc1 :: account where
  "acc1 = \<lparr>acc_id = ''acc1'', acc_username = ''user1'',
           acc_userDataDir = Some ''profiles/acc1''\<rparr>"

text \<open>Account \<open>acc1\<close> has liked once, ten minutes before the clock reading \<open>3600000\<close>.\<close>

definition liked_disk :: disk where
  "liked_disk =
     \<lparr>content = Some (Map.empty(''acc1'' \<mapsto>
        \<lparr>likes = Some [3000000], comments = Some [], dms = Some []\<rparr>)),
      writable = True\<rparr>"

text \<open>A world in which \<open>acc1\<close> holds the only session, warm and connected.\<close>

definition warm_world :: world where
  "warm_world =
     \<lparr>log_file = liked_disk,
      activeSessions = fmupd ''acc1'' 0 fmempty,
      clients = (\<lambda>h. \<lparr>userDataDir = Some ''profiles/acc1'', browser = Some True, page = True\<rparr>),
      next_handle = 1,
      os = stale_os,
      error_log = [],
      alerts = []\<rparr>"

text \<open>A world with no session at all.\<close>

definition cold_world :: world where
  "cold_world =
     \<lparr>log_file = liked_disk,
      activeSessions = fmempty,
      clients = (\<lambda>h. new_IgClient None),
      next_handle = 0,
      os = stale_os,
      error_log = [],
      alerts = []\<rparr>"

text \<open>Likes limited to one per hour, comments switched off, direct messages switched on.\<close>

definition dm_behavior :: behavior where
  "dm_behavior = \<lparr>enableLikes = None, enableComments = Some False, enableAutoDMs = Some True\<rparr>"

definition likes_only :: behavior where
  "likes_only = \<lparr>enableLikes = None, enableComments = Some False, enableAutoDMs = None\<rparr>"

definition one_per_hour :: limits where
  "one_per_hour = \<lparr>likesPerHour = 1, commentsPerHour = 1, dmsPerHour = None\<rparr>"


text \<open>A cycle in which every launch fails, and one in which the second launch succeeds.\<close>

definition quiet :: interaction where
  "quiet = \<lparr>tracked = [], thrown = None\<rparr>"


definition retry_cycle :: cycle where
  "retry_cycle =
     \<lparr>now_check = 3600000, now_close = 3700000,
      launches = (\<lambda>k. if k = 0 then LaunchFails (Error ''profile in use'') else LaunchOk),
      init_rest = None, dm_check = quiet, interact = quiet\<rparr>"



text \<open>A log whose only like is more than 24 hours older than the clock reading \<open>100000000\<close>.\<close>

definition old_disk :: disk where
  "old_disk =
     \<lparr>content = Some (Map.empty(''a1'' \<mapsto>
        \<lparr>likes = Some [1000], comments = Some [], dms = Some []\<rparr>)),
      writable = True\<rparr>"

section \<open>Properties of the quota tracker\<close>

subsection \<open>What the queries read\<close>


lemma getHistory_cleaned:
  "fst (getHistory a (cleanOldEntries now (t\<lparr>data := loadData d\<rparr>)))
     = filter (\<lambda>x. x > now - day) (recorded d (accountId t) a)"
  by (cases a) (simp_all add: getHistory_def ensureEntry_def cleanOldEntries_def recorded_def
      emptyEntry_def orEmpty_def Let_def split: option.splits)

lemma filter_hour_day:
  "filter (\<lambda>x. now - day < x \<and> now - hour < x) h = filter (\<lambda>x. now - hour < x) h"
  by (rule filter_cong) (auto simp: hour_def day_def)

lemma canPerformAction_count:
  "fst (canPerformAction now a L t d)
     = (int (length (filter (\<lambda>x. x > now - hour) (recorded d (accountId t) a))) < L)"
  by (simp add: canPerformAction_def Let_def split_beta getHistory_cleaned filter_hour_day)

lemma window_eq_filter:
  "\<forall>x \<in> set h. x \<le> now \<Longrightarrow> filter (\<lambda>x. x > now - hour) h = window now h"
  by (induction h) (auto simp: window_def)

lemma scenario_recorded:
  "recorded scenario_disk ''a1'' Likes =
     [300000, 600000, 900000, 1200000, 1500000, 1800000, 2100000, 2400000, 2700000, 3000000]"
  by (simp add: recorded_def scenario_disk_def loadData_def orEmpty_def)

subsection \<open>Availability\<close>

text \<open>
  Claim C2, as stated, fails on the code: the filter of \<^verbatim>\<open>canPerformAction\<close> keeps every
  timestamp greater than \<open>now - 1h\<close> and has no upper bound. With the single record
  \<open>2000\<close> in the file and the clock at \<open>1000\<close>, the method answers false for limit 1
  although the window \<open>(now - 1h, now]\<close> holds no record.
\<close>

theorem canPerformAction_window_counterexample:
  "fst (canPerformAction 1000 Likes 1 \<lparr>accountId = ''a1'', data = Map.empty\<rparr> future_disk) = False
   \<and> \<not> (1 \<le> int (length (window 1000 (recorded future_disk ''a1'' Likes))))"
  by (simp add: canPerformAction_count recorded_def future_disk_def loadData_def orEmpty_def
      window_def hour_def)

text \<open>
  Claim C2, amended: \<^verbatim>\<open>canPerformAction\<close> returns false if and only if the number of
  timestamps recorded in the durable log for the account and action that are greater than
  \<open>now - 1h\<close> is at least the limit; the count is taken from the file as loaded by the
  call, not from the tracker's memory. When no recorded timestamp is later than \<open>now\<close>,
  that number is the count of the window \<open>(now - 1h, now]\<close>.
\<close>

theorem canPerformAction_false_iff:
  "(fst (canPerformAction now a L t d) = False
      \<longleftrightarrow> L \<le> int (length (filter (\<lambda>x. x > now - hour) (recorded d (accountId t) a))))
   \<and> ((\<forall>x \<in> set (recorded d (accountId t) a). x \<le> now) \<longrightarrow>
        (fst (canPerformAction now a L t d) = False
           \<longleftrightarrow> L \<le> int (length (window now (recorded d (accountId t) a)))))"
  using window_eq_filter[of "recorded d (accountId t) a" now]
  by (auto simp add: canPerformAction_count not_less)

text \<open>
  Witness for C2 on the scenario: all ten records are in the past and in the window, and
  the method answers false for limit 10.
\<close>

theorem canPerformAction_false_iff_witness:
  "list_all (\<lambda>x. x \<le> 3600000) (recorded scenario_disk ''a1'' Likes)
   \<and> fst (canPerformAction 3600000 Likes 10 scenario_tracker scenario_disk) = False
   \<and> 10 \<le> int (length (window 3600000 (recorded scenario_disk ''a1'' Likes)))"
  using canPerformAction_false_iff [of 3600000 Likes 10 scenario_tracker scenario_disk]
  by (simp add: scenario_recorded scenario_tracker_def window_def hour_def)

subsection \<open>Waiting time\<close>






subsection \<open>Recording an action\<close>

lemma field_set_field:
  "field a' (set_field a v e) = (if a' = a then Some v else field a' e)"
  by (cases a; cases a') simp_all

lemma field_emptyEntry: "field a emptyEntry = Some []"
  by (cases a) (simp_all add: emptyEntry_def)

lemma trackAction_recorded:
  "recorded (snd (trackAction now a t d)) acc' a' =
     (if writable d \<and> acc' = accountId t \<and> a' = a
      then recorded d acc' a' @ [now] else recorded d acc' a')"
  by (simp add: trackAction_def saveData_def ensureEntry_def recorded_def loadData_def Let_def
      field_set_field field_emptyEntry orEmpty_def split: option.splits)

lemma trackAction_accountId: "accountId (fst (trackAction now a t d)) = accountId t"
  by (simp add: trackAction_def ensureEntry_def Let_def split: option.splits)

text \<open>
  Claim C4, as stated, fails on the code: with an empty log and limit 1,
  \<^verbatim>\<open>canPerformAction\<close> at the clock reading \<open>1000\<close> is true; after
  \<^verbatim>\<open>trackAction\<close> at \<open>2000\<close> the same query at \<open>1000\<close> is false, because the
  filter has no upper bound and counts the later record.
\<close>

theorem trackAction_past_counterexample:
  "fst (canPerformAction 1000 Likes 1 \<lparr>accountId = ''a1'', data = Map.empty\<rparr> empty_disk) = True
   \<and> fst (canPerformAction 1000 Likes 1
          (fst (trackAction 2000 Likes \<lparr>accountId = ''a1'', data = Map.empty\<rparr> empty_disk))
          (snd (trackAction 2000 Likes \<lparr>accountId = ''a1'', data = Map.empty\<rparr> empty_disk))) = False"
  by (simp add: canPerformAction_count trackAction_recorded trackAction_accountId)
     (simp add: recorded_def empty_disk_def loadData_def hour_def)

text \<open>
  Claim C4, amended: \<^verbatim>\<open>trackAction\<close> only appends. On a successful write the stored
  history of the account and action is the old one followed by the new timestamp (on a
  failed write it is unchanged), and the history of every other account or action is
  unchanged. For a reference time \<open>r\<close> strictly before the new timestamp the new record
  is counted, so \<^verbatim>\<open>canPerformAction\<close> at \<open>r\<close> compares the old count plus one with the
  limit: its result can change from true to false and never from false to true.
\<close>

theorem trackAction_appends:
  assumes "r < now"
  shows "recorded (snd (trackAction now a t d)) (accountId t) a
           = (if writable d then recorded d (accountId t) a @ [now] else recorded d (accountId t) a)
   \<and> ((acc', a') \<noteq> (accountId t, a) \<longrightarrow>
          recorded (snd (trackAction now a t d)) acc' a' = recorded d acc' a')
   \<and> fst (canPerformAction r a L (fst (trackAction now a t d)) (snd (trackAction now a t d)))
       = (int (length (filter (\<lambda>x. x > r - hour) (recorded d (accountId t) a)))
            + (if writable d then 1 else 0) < L)
   \<and> (fst (canPerformAction r a L (fst (trackAction now a t d)) (snd (trackAction now a t d)))
        \<longrightarrow> fst (canPerformAction r a L t d))"
  using assms
  by (auto simp add: canPerformAction_count trackAction_recorded trackAction_accountId hour_def)

text \<open>
  Witness for C4: a like recorded at \<open>2000\<close> in an empty log, queried at \<open>1000\<close> with
  limit 2.
\<close>

theorem trackAction_appends_witness:
  "(1000::int) < 2000
   \<and> recorded (snd (trackAction 2000 Likes scenario_tracker empty_disk)) ''a1'' Likes = [2000]
   \<and> recorded (snd (trackAction 2000 Likes scenario_tracker empty_disk)) ''a1'' Comments = []
   \<and> fst (canPerformAction 1000 Likes 2 (fst (trackAction 2000 Likes scenario_tracker empty_disk))
        (snd (trackAction 2000 Likes scenario_tracker empty_disk))) = True
   \<and> fst (canPerformAction 1000 Likes 2 scenario_tracker empty_disk) = True"
  using trackAction_appends [of 1000 2000 Likes scenario_tracker empty_disk "''a1''" Comments 2]
  by (simp add: scenario_tracker_def) (simp add: recorded_def empty_disk_def loadData_def)

subsection \<open>The queries leave the file alone\<close>

lemma canPerformAction_disk: "snd (snd (canPerformAction now a L t d)) = d"
  by (simp add: canPerformAction_def Let_def split_beta)

lemma getRecentCount_disk: "snd (snd (getRecentCount now a t d)) = d"
  by (simp add: getRecentCount_def Let_def split_beta)

lemma getTimeUntilAvailable_disk: "snd (snd (getTimeUntilAvailable now a L t d)) = d"
  by (simp add: getTimeUntilAvailable_def Let_def split_beta split: list.splits)

lemma getHistory_accountId: "accountId (snd (getHistory a t)) = accountId t"
  by (simp add: getHistory_def ensureEntry_def Let_def split: option.splits)

lemma cleanOldEntries_accountId: "accountId (cleanOldEntries now t) = accountId t"
  by (simp add: cleanOldEntries_def Let_def split: option.splits)

lemma canPerformAction_accountId: "accountId (fst (snd (canPerformAction now a L t d))) = accountId t"
  by (simp add: canPerformAction_def Let_def split_beta getHistory_accountId cleanOldEntries_accountId)

lemma getRecentCount_accountId: "accountId (fst (snd (getRecentCount now a t d))) = accountId t"
  by (simp add: getRecentCount_def Let_def split_beta getHistory_accountId)

lemma getTimeUntilAvailable_accountId:
  "accountId (fst (snd (getTimeUntilAvailable now a L t d))) = accountId t"
  by (simp add: getTimeUntilAvailable_def Let_def split_beta getHistory_accountId split: list.splits)

lemma runQuery_frame:
  "snd (runQuery q (t, d)) = d \<and> accountId (fst (runQuery q (t, d))) = accountId t"
proof (cases q)
  case (Pair now k)
  then show ?thesis
    by (cases k)
       (simp_all add: canPerformAction_disk getRecentCount_disk getTimeUntilAvailable_disk
          canPerformAction_accountId getRecentCount_accountId getTimeUntilAvailable_accountId)
qed

lemma runQueries_frame:
  "snd (runQueries qs (t, d)) = d \<and> accountId (fst (runQueries qs (t, d))) = accountId t"
proof (induction qs arbitrary: t)
  case Nil
  then show ?case by (simp add: runQueries_def)
next
  case (Cons q qs)
  obtain t' where step: "runQuery q (t, d) = (t', d)" and acc: "accountId t' = accountId t"
    using runQuery_frame[of q t d] by (cases "runQuery q (t, d)") auto
  show ?case using Cons.IH[of t'] step acc by (simp add: runQueries_def)
qed

lemma trackAction_disk_memory:
  "accountId t1 = accountId t2 \<Longrightarrow> snd (trackAction now a t1 d) = snd (trackAction now a t2 d)"
  by (simp add: trackAction_def saveData_def ensureEntry_def Let_def split: option.splits)

text \<open>
  Claim C10: \<^verbatim>\<open>canPerformAction\<close>, \<^verbatim>\<open>getRecentCount\<close> and
  \<^verbatim>\<open>getTimeUntilAvailable\<close> return the disk they were given, and so does every sequence
  of them. What \<^verbatim>\<open>trackAction\<close> writes after such a sequence is what it would have
  written without it: the pruning that \<^verbatim>\<open>canPerformAction\<close> did in memory is not
  persisted, and the stored history still is the whole old history followed by the new
  timestamp.
\<close>

theorem queries_write_free:
  "snd (snd (canPerformAction now a L t d)) = d
   \<and> snd (snd (getRecentCount now a t d)) = d
   \<and> snd (snd (getTimeUntilAvailable now a L t d)) = d
   \<and> snd (runQueries qs (t, d)) = d
   \<and> snd (trackAction now' a' (fst (runQueries qs (t, d))) (snd (runQueries qs (t, d))))
       = snd (trackAction now' a' t d)
   \<and> recorded (snd (trackAction now' a' (fst (snd (canPerformAction now a' L t d)))
                     (snd (snd (canPerformAction now a' L t d))))) (accountId t) a'
       = (if writable d then recorded d (accountId t) a' @ [now'] else recorded d (accountId t) a')"
  using runQueries_frame[of qs t d]
    trackAction_disk_memory[of "fst (runQueries qs (t, d))" t now' a' d]
  by (simp add: canPerformAction_disk getRecentCount_disk getTimeUntilAvailable_disk
      trackAction_recorded canPerformAction_accountId)

text \<open>
  Witness for C10: the only like in the file is more than 24 hours old. After
  \<^verbatim>\<open>canPerformAction\<close> the tracker's memory holds no like for the account, the file
  still holds the old one, and a following \<^verbatim>\<open>trackAction\<close> writes the old like
  followed by the new one.
\<close>

theorem queries_write_free_witness:
  "map_option likes (data (fst (snd (canPerformAction 100000000 Likes 5 scenario_tracker old_disk))) ''a1'')
     = Some (Some [])
   \<and> recorded (snd (snd (canPerformAction 100000000 Likes 5 scenario_tracker old_disk))) ''a1'' Likes
     = [1000]
   \<and> recorded (snd (trackAction 100000001 Likes
          (fst (snd (canPerformAction 100000000 Likes 5 scenario_tracker old_disk)))
          (snd (snd (canPerformAction 100000000 Likes 5 scenario_tracker old_disk))))) ''a1'' Likes
     = [1000, 100000001]"
proof -
  have mem: "map_option likes
      (data (fst (snd (canPerformAction 100000000 Likes 5 scenario_tracker old_disk))) ''a1'')
     = Some (Some [])"
    by code_simp
  have old: "recorded old_disk ''a1'' Likes = [1000]" "writable old_disk"
    by (simp_all add: recorded_def old_disk_def loadData_def orEmpty_def)
  have acc: "accountId scenario_tracker = ''a1''" by (simp add: scenario_tracker_def)
  note T = queries_write_free [of 100000000 Likes 5 scenario_tracker old_disk "[]" 100000001 Likes]
  from T have same: "snd (snd (canPerformAction 100000000 Likes 5 scenario_tracker old_disk)) = old_disk"
    by blast
  from T have after: "recorded (snd (trackAction 100000001 Likes
          (fst (snd (canPerformAction 100000000 Likes 5 scenario_tracker old_disk)))
          (snd (snd (canPerformAction 100000000 Likes 5 scenario_tracker old_disk)))))
        (accountId scenario_tracker) Likes
       = (if writable old_disk then recorded old_disk (accountId scenario_tracker) Likes @ [100000001]
          else recorded old_disk (accountId scenario_tracker) Likes)"
    by blast
  show ?thesis
    using mem same after[unfolded acc] old by simp
qed

section \<open>Properties of the concurrency limiter\<close>

lemma submitted_append: "submitted (es @ es') = submitted es @ submitted es'"
  by (induction es rule: submitted.induct) simp_all

lemma exec_snoc: "exec (es @ [e]) g = step (exec es g) e"
  by (simp add: exec_def)

lemma limiter_ok_init: "limiter_ok n [] (pLimit n)"
  by (auto simp add: limiter_ok_def pLimit_def)

lemma length_remove1_int:
  assumes "t \<in> set xs"
  shows "int (length (remove1 t xs)) = int (length xs) - 1"
proof -
  have "0 < length xs" using assms by (rule length_pos_if_in_set)
  then have "int (length xs - 1) = int (length xs) - 1" by linarith
  then show ?thesis using assms by (simp add: length_remove1)
qed

lemma enqueue_ok:
  assumes "limiter_ok n subs g"
  shows "limiter_ok n (subs @ [t]) (enqueue t g)"
  using assms by (auto simp: limiter_ok_def enqueue_def run_def)

lemma run_continue_ok:
  assumes "limiter_ok n subs g" and "t \<in> set (running g)"
  shows "limiter_ok n subs (run_continue t r g)"
proof (cases "queue g")
  case Nil
  have len: "int (length (remove1 t (running g))) = int (length (running g)) - 1"
    using assms(2) by (rule length_remove1_int)
  show ?thesis using assms Nil len
    by (auto simp: limiter_ok_def run_continue_def next_task_def Let_def)
next
  case (Cons q rest)
  have len: "int (length (remove1 t (running g))) = int (length (running g)) - 1"
    using assms(2) by (rule length_remove1_int)
  show ?thesis using assms Cons len
    by (auto simp: limiter_ok_def run_continue_def next_task_def run_def Let_def)
qed

lemma step_ok:
  assumes "limiter_ok n subs g"
  shows "limiter_ok n (subs @ submitted [e]) (step g e)"
  using assms by (cases e) (auto simp: enqueue_ok run_continue_ok)

lemma exec_ok: "limiter_ok n (submitted es) (exec es (pLimit n))"
proof (induction es rule: rev_induct)
  case Nil
  then show ?case by (simp add: exec_def limiter_ok_init)
next
  case (snoc e es)
  then show ?case using step_ok[of n "submitted es" "exec es (pLimit n)" e]
    by (simp add: exec_snoc submitted_append)
qed

lemma drain_ok:
  "limiter_ok n subs g \<Longrightarrow> limiter_ok n subs (drain res g) \<and> running (drain res g) = []"
proof (induction res g rule: drain.induct)
  case (1 res g)
  show ?case
  proof (cases "running g")
    case Nil
    then show ?thesis using "1.prems" by (simp add: drain.simps[of res g])
  next
    case (Cons t ts)
    then have "t \<in> set (running g)" by simp
    then have "limiter_ok n subs (run_continue t (res t) g)"
      using "1.prems" by (simp add: run_continue_ok)
    then show ?thesis using "1.IH"[OF Cons] Cons by (simp add: drain.simps[of res g])
  qed
qed

lemma exec_submits:
  "0 \<le> n \<Longrightarrow> exec (map Submit ts) (pLimit n) =
     \<lparr>concurrency = n, activeCount = int (length (take (nat n) ts)), queue = drop (nat n) ts,
      running = take (nat n) ts, started = take (nat n) ts, settled = []\<rparr>"
proof (induction ts rule: rev_induct)
  case Nil
  then show ?case by (simp add: exec_def pLimit_def)
next
  case (snoc t ts)
  then show ?case
    by (auto simp: exec_snoc enqueue_def run_def min_def)
qed


text \<open>
  Claim C5, as stated, fails on the code for the limit 0, which \<^verbatim>\<open>pLimit\<close> accepts:
  one submitted task exceeds the limit, is queued, and is never started, since only the
  end of a running task starts a queued one. After every running task has returned the
  task still waits and has not settled.
\<close>

theorem pLimit_zero_counterexample:
  "started (drain (\<lambda>t. Fulfilled ()) (exec [Submit (1::nat)] (pLimit 0 :: (nat, unit) limiter))) = []
   \<and> settled (drain (\<lambda>t. Fulfilled ()) (exec [Submit (1::nat)] (pLimit 0 :: (nat, unit) limiter))) = []
   \<and> queue (drain (\<lambda>t. Fulfilled ()) (exec [Submit (1::nat)] (pLimit 0 :: (nat, unit) limiter))) = [1]"
  by (simp add: exec_def pLimit_def enqueue_def drain.simps)

text \<open>
  Claim C5, amended with the condition that the limit is at least 1: in every state the
  limiter reaches, through any sequence of submissions and of returns of running tasks, the
  counter \<^verbatim>\<open>activeCount\<close> is the number of running tasks and is at most the limit; the
  tasks started so far followed by the queue are the submitted tasks in submission order,
  so tasks start first in, first out; a task waits only while the limit is reached, and
  then some task is running whose return will start it;
  submitting tasks to a fresh limiter starts the first \<open>n\<close> and queues the rest; and once
  every running task returns, no task is running or queued, every submitted task has been
  started in submission order, and each has settled exactly once.
\<close>

theorem pLimit_bound_fifo_complete:
  fixes es :: "('t, 'v) event list"
  assumes "1 \<le> n"
  shows "activeCount (exec es (pLimit n)) = int (length (running (exec es (pLimit n))))
   \<and> activeCount (exec es (pLimit n)) \<le> n
   \<and> started (exec es (pLimit n)) @ queue (exec es (pLimit n)) = submitted es
   \<and> (queue (exec es (pLimit n)) \<noteq> [] \<longrightarrow>
         activeCount (exec es (pLimit n)) = n \<and> running (exec es (pLimit n)) \<noteq> [])
   \<and> running (exec (map Submit ts) (pLimit n :: ('t, 'v) limiter)) = take (nat n) ts
   \<and> queue (exec (map Submit ts) (pLimit n :: ('t, 'v) limiter)) = drop (nat n) ts
   \<and> running (drain res (exec es (pLimit n))) = []
   \<and> queue (drain res (exec es (pLimit n))) = []
   \<and> started (drain res (exec es (pLimit n))) = submitted es
   \<and> mset (map fst (settled (drain res (exec es (pLimit n))))) = mset (submitted es)"
proof -
  let ?g = "exec es (pLimit n) :: ('t, 'v) limiter"
  have ok: "limiter_ok n (submitted es) ?g" by (rule exec_ok)
  have dr: "limiter_ok n (submitted es) (drain res ?g)" and idle: "running (drain res ?g) = []"
    using drain_ok[OF ok, of res] by simp_all
  have q: "queue (drain res ?g) = []"
    using dr idle assms by (auto simp: limiter_ok_def)
  have subm: "exec (map Submit ts) (pLimit n :: ('t, 'v) limiter) =
     \<lparr>concurrency = n, activeCount = int (length (take (nat n) ts)), queue = drop (nat n) ts,
      running = take (nat n) ts, started = take (nat n) ts, settled = []\<rparr>"
    using assms by (intro exec_submits) simp
  show ?thesis
    using ok dr idle q assms by (auto simp: limiter_ok_def subm)
qed

text \<open>
  Witness for C5, with limit 2 and three tasks: two run at once and the third waits; after
  task 2 returns and the others are run to their end, all three have started in order.
\<close>

theorem pLimit_bound_fifo_complete_witness:
  "(1::int) \<le> 2
   \<and> running (exec (map Submit [1::nat, 2, 3]) (pLimit 2 :: (nat, unit) limiter)) = [1, 2]
   \<and> queue (exec (map Submit [1::nat, 2, 3]) (pLimit 2 :: (nat, unit) limiter)) = [3]
   \<and> started (drain (\<lambda>t. Fulfilled ())
         (exec [Submit 1, Submit 2, Submit 3, Settle 2 (Fulfilled ())] (pLimit 2 :: (nat, unit) limiter)))
       = [1, 2, 3]
   \<and> queue (drain (\<lambda>t. Fulfilled ())
         (exec [Submit 1, Submit 2, Submit 3, Settle 2 (Fulfilled ())] (pLimit 2 :: (nat, unit) limiter)))
       = []"
  using pLimit_bound_fifo_complete [where n = 2
           and es = "[Submit (1::nat), Submit 2, Submit 3, Settle 2 (Fulfilled ())]"
           and ts = "[1::nat, 2, 3]" and res = "\<lambda>t. Fulfilled ()"]
  by simp

section \<open>Properties of processAccount and of the launch\<close>


lemma close_browser: "browser (fst (close (c, ost))) = None"
  by (simp add: close_def)






lemma isBlocked_iff:
  assumes "0 \<le> msToNextLike ms" "0 \<le> msToNextComment ms" "0 \<le> msToNextDM ms"
  shows "isBlocked b ms \<longleftrightarrow>
     (likesEnabled b \<longrightarrow> 0 < msToNextLike ms)
     \<and> (commentsEnabled b \<longrightarrow> 0 < msToNextComment ms)
     \<and> (dmsEnabled b \<longrightarrow> 0 < msToNextDM ms)"
  using assms by (auto simp: isBlocked_def)






lemma acquire_reuse:
  assumes "fmlookup (activeSessions w) (acc_id acc) = Some h" and "isConnected (clients w h)"
  shows "acquire acc w = (h, w)"
  using assms by (simp add: acquire_def Let_def)

lemma acquire_fresh:
  assumes "fmlookup (activeSessions w) (acc_id acc) = None
           \<or> (\<exists>h. fmlookup (activeSessions w) (acc_id acc) = Some h \<and> \<not> isConnected (clients w h))"
  shows "acquire acc w =
     (next_handle w,
      w\<lparr>clients := (clients w)(next_handle w := new_IgClient (acc_userDataDir acc)),
        next_handle := next_handle w + 1,
        activeSessions := fmupd (acc_id acc) (next_handle w) (activeSessions w)\<rparr>)"
proof -
  have drop: "fmupd (acc_id acc) (next_handle w) (fmdrop (acc_id acc) (activeSessions w))
              = fmupd (acc_id acc) (next_handle w) (activeSessions w)"
    by (rule fmap_ext) simp
  show ?thesis using assms drop
    by (auto simp add: acquire_def Let_def deleteSession_def)
qed

lemma acquire_cases:
  "acquire acc w = (case fmlookup (activeSessions w) (acc_id acc) of
      Some h \<Rightarrow> if isConnected (clients w h) then (h, w)
                else (next_handle w,
                      w\<lparr>clients := (clients w)(next_handle w := new_IgClient (acc_userDataDir acc)),
                        next_handle := next_handle w + 1,
                        activeSessions := fmupd (acc_id acc) (next_handle w) (activeSessions w)\<rparr>)
    | None \<Rightarrow> (next_handle w,
                      w\<lparr>clients := (clients w)(next_handle w := new_IgClient (acc_userDataDir acc)),
                        next_handle := next_handle w + 1,
                        activeSessions := fmupd (acc_id acc) (next_handle w) (activeSessions w)\<rparr>))"
  using acquire_reuse[of w acc] acquire_fresh[of w acc]
  by (auto split: option.splits)

lemma acquire_registry_ok:
  assumes "registry_ok w"
  shows "registry_ok (snd (acquire acc w))"
  using assms unfolding registry_ok_def acquire_cases
  by (auto split: option.splits if_splits dest: less_SucI)


lemma init_connected:
  "isConnected c \<Longrightarrow> init E outcome rest (c, ost) = (Inr (), c, ost)"
  by (simp add: init_def)

lemma tryLaunch_failure: "fst (tryLaunch out c) = failure out"
  by (cases out) simp_all

lemma tryLaunch_profileDir: "profileDir (snd (tryLaunch out c)) = profileDir c"
  by (cases out) (simp_all add: profileDir_def)

lemma tryLaunch_ok: "failure out = None \<Longrightarrow> browser (snd (tryLaunch out c)) = Some True \<and> page (snd (tryLaunch out c))"
  by (cases out) simp_all

lemma closeIfOpen_profileDir: "profileDir (fst (closeIfOpen (c, ost))) = profileDir c"
  by (simp add: closeIfOpen_def profileDir_def)

lemma steps_append: "steps (xs @ ys) = steps xs @ steps ys"
  by (simp add: steps_def)

lemma closeIfOpen_os:
  "steps (trace (snd (closeIfOpen (c, ost)))) = steps (trace ost)
   \<and> files (snd (closeIfOpen (c, ost))) = files ost
   \<and> undeletable (snd (closeIfOpen (c, ost))) = undeletable ost"
  by (simp add: closeIfOpen_def emit_def steps_def)

lemma unlinkIfPresent_os:
  "steps (trace (unlinkIfPresent p ost)) = steps (trace ost)
   \<and> files (unlinkIfPresent p ost) \<subseteq> files ost
   \<and> undeletable (unlinkIfPresent p ost) = undeletable ost
   \<and> (p \<in> files (unlinkIfPresent p ost) \<longrightarrow> p \<in> undeletable ost)"
  by (auto simp add: unlinkIfPresent_def emit_def steps_def)

lemma fold_unlink_os:
  "steps (trace (fold (\<lambda>f. unlinkIfPresent (g f)) fs ost)) = steps (trace ost)
   \<and> files (fold (\<lambda>f. unlinkIfPresent (g f)) fs ost) \<subseteq> files ost
   \<and> undeletable (fold (\<lambda>f. unlinkIfPresent (g f)) fs ost) = undeletable ost
   \<and> (\<forall>f \<in> set fs. g f \<in> files (fold (\<lambda>f. unlinkIfPresent (g f)) fs ost) \<longrightarrow> g f \<in> undeletable ost)"
proof (induction fs arbitrary: ost)
  case Nil
  then show ?case by simp
next
  case (Cons f fs)
  let ?o1 = "unlinkIfPresent (g f) ost"
  note h = unlinkIfPresent_os[of "g f" ost]
  note ih = Cons.IH[of ?o1]
  have sub: "files (fold (\<lambda>f. unlinkIfPresent (g f)) fs ?o1) \<subseteq> files ?o1" using ih by blast
  show ?case using h ih sub by (auto simp: subset_iff)
qed

lemma killChrome_os:
  "steps (trace (killChromeProcessByProfile E d ost))
     = steps (trace ost) @ (case killCommand E d of None \<Rightarrow> [] | Some cmd \<Rightarrow> [Exec cmd])
   \<and> files (killChromeProcessByProfile E d ost) = files ost
   \<and> undeletable (killChromeProcessByProfile E d ost) = undeletable ost"
  by (simp add: killChromeProcessByProfile_def emit_def steps_def split: option.splits)

lemma forceCleanup_os:
  "steps (trace (forceCleanup E c ost)) = steps (trace ost) @ killEvents E c
   \<and> files (forceCleanup E c ost) \<subseteq> files ost
   \<and> undeletable (forceCleanup E c ost) = undeletable ost
   \<and> (\<forall>p \<in> lockPaths E c. p \<in> files (forceCleanup E c ost) \<longrightarrow> p \<in> undeletable ost)"
proof (cases "profileDir c")
  case None
  then show ?thesis by (simp add: forceCleanup_def killEvents_def lockPaths_def)
next
  case (Some d)
  note k = killChrome_os[of E d ost]
  note f = fold_unlink_os[of "join E (resolve E d)" lockFiles "killChromeProcessByProfile E d ost"]
  show ?thesis using Some k f
    by (auto simp add: forceCleanup_def killEvents_def lockPaths_def)
qed


lemma retriesFrom_last: "maxAttempts - 1 \<le> a \<Longrightarrow> retriesFrom outcome a = 0"
  by (simp add: retriesFrom_def)

lemma retriesFrom_step:
  "a < maxAttempts - 1 \<Longrightarrow>
     retriesFrom outcome a = (if failure (outcome a) \<noteq> None then Suc (retriesFrom outcome (Suc a)) else 0)"
  by (simp add: retriesFrom_def upt_conv_Cons)

lemma closeIfOpen_browser: "browser (fst (closeIfOpen (c, ost))) = None"
  by (simp add: closeIfOpen_def)

lemma killEvents_cong: "profileDir c' = profileDir c \<Longrightarrow> killEvents E c' = killEvents E c"
  by (simp add: killEvents_def)

lemma lockPaths_cong: "profileDir c' = profileDir c \<Longrightarrow> lockPaths E c' = lockPaths E c"
  by (simp add: lockPaths_def)

lemma launchLoop_post:
  "attempt < maxAttempts \<Longrightarrow> loop_post E outcome attempt s (launchLoop E outcome attempt s)"
proof (induction E outcome attempt s rule: launchLoop.induct)
  case (1 E outcome attempt c ost)
  obtain c1 where t: "tryLaunch (outcome attempt) c = (failure (outcome attempt), c1)"
    using tryLaunch_failure[of "outcome attempt" c] by (cases "tryLaunch (outcome attempt) c") auto
  have pd1: "profileDir c1 = profileDir c"
    using tryLaunch_profileDir[of "outcome attempt" c] t by simp
  show ?case
  proof (cases "failure (outcome attempt)")
    case None
    have r0: "retriesFrom outcome attempt = 0"
      using None "1.prems" by (cases "attempt < maxAttempts - 1")
        (simp_all add: retriesFrom_step retriesFrom_last)
    have ok: "browser c1 = Some True \<and> page c1"
      using tryLaunch_ok[OF None, of c] t by simp
    show ?thesis
      using "1.prems" None t r0 pd1 ok
      by (simp add: launchLoop.simps[of E outcome attempt c ost] loop_post_def emit_def steps_def)
  next
    case (Some err)
    obtain c2 os2 where cl: "closeIfOpen (c1, emit Launch ost) = (c2, os2)"
      by (cases "closeIfOpen (c1, emit Launch ost)") auto
    have c2: "browser c2 = None" "profileDir c2 = profileDir c"
      using closeIfOpen_browser[of c1 "emit Launch ost"] closeIfOpen_profileDir[of c1 "emit Launch ost"]
        cl pd1 by simp_all
    have os2: "steps (trace os2) = steps (trace ost) @ [Launch]"
        "files os2 = files ost" "undeletable os2 = undeletable ost"
      using closeIfOpen_os[of c1 "emit Launch ost"] cl by (simp_all add: emit_def steps_def)
    show ?thesis
    proof (cases "attempt + 1 \<ge> maxAttempts")
      case True
      then have r0: "retriesFrom outcome attempt = 0" by (simp add: retriesFrom_last)
      show ?thesis
        using "1.prems" Some t cl c2 os2 r0 True
        by (simp add: launchLoop.simps[of E outcome attempt c ost] loop_post_def)
    next
      case False
      let ?s' = "(c2, emit (Sleep (8000 + int (attempt + 1) * 2000)) (forceCleanup E c2 os2))"
      have lt: "attempt < maxAttempts - 1" using False by simp
      have r: "retriesFrom outcome attempt = Suc (retriesFrom outcome (Suc attempt))"
        using lt Some by (simp add: retriesFrom_step)
      have ih: "loop_post E outcome (attempt + 1) ?s' (launchLoop E outcome (attempt + 1) ?s')"
        using "1.IH"[OF "1.prems" t[symmetric] Some cl[symmetric] False] False by simp
      have unf: "launchLoop E outcome attempt (c, ost) = launchLoop E outcome (attempt + 1) ?s'"
        using "1.prems" Some t cl False
        by (simp add: launchLoop.simps[of E outcome attempt c ost])
      note fc = forceCleanup_os[of E c2 os2]
      obtain res c' ost' where res: "launchLoop E outcome (attempt + 1) ?s' = (res, c', ost')"
        by (cases "launchLoop E outcome (attempt + 1) ?s'") auto
      have ke: "killEvents E c2 = killEvents E c"
        using c2(2) by (rule killEvents_cong)
      have lp: "lockPaths E c2 = lockPaths E c"
        using c2(2) by (rule lockPaths_cong)
      let ?r' = "retriesFrom outcome (Suc attempt)"
      let ?f = "\<lambda>j. killEvents E c @ [Sleep (8000 + 2000 * int j), Launch]"
      have idx: "attempt + Suc ?r' = Suc attempt + ?r'" by simp
      from ih have i1: "steps (trace ost') = steps (trace (snd ?s')) @
            Launch # concat (map ?f [Suc attempt + 1 ..< Suc attempt + 1 + ?r'])"
        unfolding res loop_post_def by (simp add: ke)
      from ih have i2: "res = (case failure (outcome (Suc attempt + ?r')) of
                    None \<Rightarrow> Inr () | Some err \<Rightarrow> Inl err)"
        unfolding res loop_post_def by simp
      from ih have i3: "failure (outcome (Suc attempt + ?r')) \<noteq> None
              \<longrightarrow> Suc attempt + ?r' = maxAttempts - 1"
        unfolding res loop_post_def by simp
      from ih have i4: "profileDir c' = profileDir c2"
        unfolding res loop_post_def by simp
      from ih have i5: "files ost' \<subseteq> files (snd ?s')" "undeletable ost' = undeletable (snd ?s')"
        unfolding res loop_post_def by simp_all
      from ih have i6: "failure (outcome (Suc attempt + ?r')) = None
              \<longrightarrow> browser c' = Some True \<and> page c'"
        unfolding res loop_post_def by simp
      from ih have i7: "failure (outcome (Suc attempt + ?r')) \<noteq> None \<longrightarrow> browser c' = None"
        unfolding res loop_post_def by simp
      have s': "steps (trace (snd ?s')) =
                  steps (trace ost) @ [Launch] @ killEvents E c @ [Sleep (8000 + 2000 * int (attempt + 1))]"
        using fc os2 ke by (simp add: emit_def steps_def)
      have f': "files (snd ?s') \<subseteq> files ost" "undeletable (snd ?s') = undeletable ost"
        using fc os2 by (simp_all add: emit_def)
      have locks: "\<forall>p \<in> lockPaths E c. p \<in> files (snd ?s') \<longrightarrow> p \<in> undeletable ost"
        using fc os2 lp by (simp add: emit_def)
      have upt: "[attempt + 1 ..< attempt + 1 + Suc ?r']
                 = (attempt + 1) # [Suc attempt + 1 ..< Suc attempt + 1 + ?r']"
        by (simp add: upt_conv_Cons)
      have g1: "steps (trace ost') = steps (trace ost) @
          Launch # concat (map ?f [attempt + 1 ..< attempt + 1 + retriesFrom outcome attempt])"
        unfolding r upt using i1 s' by simp
      have g7: "\<forall>p \<in> lockPaths E c. p \<in> files ost' \<longrightarrow> p \<in> undeletable ost"
        using locks i5(1) by blast
      show ?thesis
        unfolding unf res loop_post_def r idx
        using g1[unfolded r] i2 i3 i4 c2(2) i5 f' g7 i6 i7
        by (simp add: subset_trans)
    qed
  qed
qed


lemma untouched_refl: "untouched a H w w"
  by (simp add: untouched_def)




lemma acquire_untouched:
  "untouched (acc_id acc) (ownHandles acc w) w (snd (acquire acc w))"
  by (auto simp add: untouched_def ownHandles_def acquire_cases split: option.splits)


lemma acquire_registered:
  "fmlookup (activeSessions (snd (acquire acc w))) (acc_id acc) = Some (fst (acquire acc w))"
  by (auto simp add: acquire_cases split: option.splits)


lemma perform_frame:
  "activeSessions (snd (perform tid i w)) = activeSessions w
   \<and> clients (snd (perform tid i w)) = clients w
   \<and> os (snd (perform tid i w)) = os w
   \<and> log_file (snd (perform tid i w)) = trackAll tid (tracked i) (log_file w)"
  by (simp add: perform_def Let_def split: option.splits)
















lemma launchLoop_from_start:
  "loop_post E outcome 0 (c, ost) (launchLoop E outcome 0 (c, ost))"
  by (rule launchLoop_post) (simp add: maxAttempts_def)



lemma init_success_connected:
  assumes "fst (init E outcome rest (c, ost)) = Inr u"
  shows "isConnected (fst (snd (init E outcome rest (c, ost))))"
proof (cases "isConnected c")
  case True
  then show ?thesis by (simp add: init_def)
next
  case False
  let ?os1 = "case profileDir c of None \<Rightarrow> ost
              | Some d \<Rightarrow> emit (Sleep 2000)
                  (killChromeProcessByProfile E d (emit (Mkdir (resolve E d)) ost))"
  obtain res c1 os2 where l: "launchLoop E outcome 0 (c, ?os1) = (res, c1, os2)"
    by (cases "launchLoop E outcome 0 (c, ?os1)") auto
  have post: "loop_post E outcome 0 (c, ?os1) (res, c1, os2)"
    using launchLoop_from_start[of E outcome c ?os1] l by simp
  have "res = Inr ()" using assms False l
    by (auto simp add: init_def Let_def split: sum.splits if_splits option.splits)
  then have "browser c1 = Some True" using post
    by (auto simp add: loop_post_def split: option.splits)
  moreover have "fst (snd (init E outcome rest (c, ost))) = c1"
    using False l by (auto simp add: init_def Let_def split: sum.splits if_splits option.splits)
  ultimately show ?thesis by (simp add: isConnected_def)
qed


lemma session_success:
  assumes "fst (session E acc b cy h w) = Inr u"
  shows "isConnected (clients (snd (session E acc b cy h w)) h)
         \<and> activeSessions (snd (session E acc b cy h w)) = activeSessions w"
proof -
  let ?i = "init E (launches cy) (init_rest cy) (clients w h, os w)"
  obtain r c os' where i: "?i = (r, c, os')" by (cases ?i) auto
  have "\<exists>u'. r = Inr u'" using assms i
    by (cases r) (auto simp add: session_def)
  then obtain u' where r: "r = Inr u'" by blast
  have conn: "isConnected c"
    using init_success_connected[of E "launches cy" "init_rest cy" "clients w h" "os w" u'] i r
    by simp
  show ?thesis using i r conn
    by (auto simp add: session_def Let_def perform_frame split_beta split: sum.splits)
qed


subsection \<open>Reusing a session\<close>

text \<open>
  Claim C7: the block that gets the client for an account leaves the account registered
  under the handle it returns. If the registered client reports that it is connected, the
  block returns that same handle and changes nothing (no client is constructed), and
  \<^verbatim>\<open>init\<close> on it returns at once without a launch; so an acquisition that follows a
  session that started successfully returns the identical handle. If the registered client
  reports that it is disconnected, the block replaces the entry by a freshly constructed
  client under a new handle. The entries of other accounts are not touched, and a registry
  in which no handle is registered twice stays so.
\<close>

theorem session_reuse:
  "fmlookup (activeSessions (snd (acquire acc w))) (acc_id acc) = Some (fst (acquire acc w))
   \<and> (fmlookup (activeSessions w) (acc_id acc) = Some h \<and> isConnected (clients w h) \<longrightarrow>
         acquire acc w = (h, w)
         \<and> init E outcome rest (clients w h, os w) = (Inr (), clients w h, os w))
   \<and> (fst (session E acc b cy (fst (acquire acc w)) (snd (acquire acc w))) = Inr () \<longrightarrow>
         acquire acc (snd (session E acc b cy (fst (acquire acc w)) (snd (acquire acc w))))
           = (fst (acquire acc w), snd (session E acc b cy (fst (acquire acc w)) (snd (acquire acc w)))))
   \<and> (fmlookup (activeSessions w) (acc_id acc) = Some h \<and> \<not> isConnected (clients w h) \<longrightarrow>
         fst (acquire acc w) = next_handle w
         \<and> activeSessions (snd (acquire acc w)) = fmupd (acc_id acc) (next_handle w) (activeSessions w)
         \<and> clients (snd (acquire acc w)) (next_handle w) = new_IgClient (acc_userDataDir acc)
         \<and> next_handle (snd (acquire acc w)) = next_handle w + 1
         \<and> (registry_ok w \<longrightarrow> fst (acquire acc w) \<noteq> h))
   \<and> (a \<noteq> acc_id acc \<longrightarrow>
         fmlookup (activeSessions (snd (acquire acc w))) a = fmlookup (activeSessions w) a)
   \<and> (registry_ok w \<longrightarrow> registry_ok (snd (acquire acc w)))"
proof (intro conjI impI)
  show "fmlookup (activeSessions (snd (acquire acc w))) (acc_id acc) = Some (fst (acquire acc w))"
    by (rule acquire_registered)
next
  assume h: "fmlookup (activeSessions w) (acc_id acc) = Some h \<and> isConnected (clients w h)"
  then show "acquire acc w = (h, w)" by (simp add: acquire_reuse)
  show "init E outcome rest (clients w h, os w) = (Inr (), clients w h, os w)"
    using h by (simp add: init_connected)
next
  let ?h1 = "fst (acquire acc w)" and ?w1 = "snd (acquire acc w)"
  let ?w2 = "snd (session E acc b cy ?h1 ?w1)"
  assume ok: "fst (session E acc b cy ?h1 ?w1) = Inr ()"
  have s: "isConnected (clients ?w2 ?h1)" "activeSessions ?w2 = activeSessions ?w1"
    using session_success[OF ok] by simp_all
  have "fmlookup (activeSessions ?w2) (acc_id acc) = Some ?h1"
    using s(2) acquire_registered[of acc w] by simp
  then show "acquire acc ?w2 = (?h1, ?w2)" using s(1) by (rule acquire_reuse)
next
  assume h: "fmlookup (activeSessions w) (acc_id acc) = Some h \<and> \<not> isConnected (clients w h)"
  then have f: "acquire acc w =
     (next_handle w,
      w\<lparr>clients := (clients w)(next_handle w := new_IgClient (acc_userDataDir acc)),
        next_handle := next_handle w + 1,
        activeSessions := fmupd (acc_id acc) (next_handle w) (activeSessions w)\<rparr>)"
    by (intro acquire_fresh) blast
  show "fst (acquire acc w) = next_handle w" using f by simp
  show "activeSessions (snd (acquire acc w)) = fmupd (acc_id acc) (next_handle w) (activeSessions w)"
    using f by simp
  show "clients (snd (acquire acc w)) (next_handle w) = new_IgClient (acc_userDataDir acc)"
    using f by simp
  show "next_handle (snd (acquire acc w)) = next_handle w + 1" using f by simp
  assume "registry_ok w"
  then have "h < next_handle w" using h by (auto simp add: registry_ok_def)
  then show "fst (acquire acc w) \<noteq> h" using f by simp
next
  assume "a \<noteq> acc_id acc"
  then show "fmlookup (activeSessions (snd (acquire acc w))) a = fmlookup (activeSessions w) a"
    using acquire_untouched[of acc w] by (simp add: untouched_def)
next
  assume "registry_ok w"
  then show "registry_ok (snd (acquire acc w))" by (rule acquire_registry_ok)
qed

lemma cold_acquire:
  "fst (acquire acc1 cold_world) = 0"
  by (simp add: acquire_cases acc1_def cold_world_def)

text \<open>
  Witness for C7: the warm session of \<open>acc1\<close> is reused as it is; and after an acquisition
  in a world without sessions and a session whose second launch succeeds, the next
  acquisition returns the same handle 0 and gives out no new one.
\<close>

theorem session_reuse_witness:
  "acquire acc1 warm_world = (0, warm_world)
   \<and> fst (acquire acc1 cold_world) = 0
   \<and> fst (session linux_env acc1 likes_only retry_cycle 0 (snd (acquire acc1 cold_world))) = Inr ()
   \<and> fst (acquire acc1
        (snd (session linux_env acc1 likes_only retry_cycle 0 (snd (acquire acc1 cold_world))))) = 0
   \<and> next_handle (snd (acquire acc1
        (snd (session linux_env acc1 likes_only retry_cycle 0 (snd (acquire acc1 cold_world)))))) = 1"
proof -
  have run: "fst (session linux_env acc1 likes_only retry_cycle 0 (snd (acquire acc1 cold_world))) = Inr ()"
    by code_simp
  have nh: "next_handle (snd (session linux_env acc1 likes_only retry_cycle 0
              (snd (acquire acc1 cold_world)))) = 1"
    by code_simp
  have warm: "fmlookup (activeSessions warm_world) (acc_id acc1) = Some 0
              \<and> isConnected (clients warm_world 0)"
    by (simp add: warm_world_def acc1_def isConnected_def)
  show ?thesis
    using session_reuse [of acc1 warm_world 0 linux_env "launches retry_cycle" None likes_only
        retry_cycle "''other''"]
      session_reuse [of acc1 cold_world 0 linux_env "launches retry_cycle" None likes_only
        retry_cycle "''other''"]
      run nh warm cold_acquire
    by simp
qed

subsection \<open>The retry loop of the launch\<close>










subsection \<open>Errors stay with their account\<close>





subsection \<open>Closing at the end of a cycle\<close>

text \<open>
  What the decision of the \<^verbatim>\<open>finally\<close> block does guarantee: a session is closed only
  when the number of registered sessions has reached the ceiling, and only when likes or
  comments are enabled and each of the two that is enabled is blocked. The wait for direct
  messages does not occur in it.
\<close>

lemma shouldClose_only_if:
  assumes "shouldClose maxSessions b l now t w"
  shows "(\<exists>m. maxSessions = Some m \<and> m \<le> int (fcard (fmdom (activeSessions w))))
   \<and> (likesEnabled b \<or> commentsEnabled b)
   \<and> (likesEnabled b \<longrightarrow> 0 < fst (getTimeUntilAvailable now Likes (likesPerHour l) t (log_file w)))
   \<and> (commentsEnabled b \<longrightarrow>
         0 < fst (getTimeUntilAvailable now Comments (commentsPerHour l) t (log_file w)))"
  using assms
  by (auto simp add: shouldClose_def limitsReachedNow_def likesEnabled_def commentsEnabled_def
      Let_def split: option.splits if_splits)

lemma smartClose_keeps_below_ceiling:
  assumes "maxSessions = Some m" and "int (fcard (fmdom (activeSessions w))) < m"
  shows "smartClose maxSessions acc b l now t h w = w"
  using assms by (simp add: smartClose_def shouldClose_def Let_def)

text \<open>
  Claim C1 against the code: \<open>acc1\<close> has direct messages enabled and none recorded, has
  comments switched off and has used its one like of the hour; it holds the only session
  and the ceiling is 1. The pre-run check of the same state does not find the account
  blocked, since direct messages are available; the \<^verbatim>\<open>finally\<close> block nevertheless
  decides to close, drops the account from the registry and closes its client.
\<close>

theorem smartClose_ignores_dms:
  "dmsEnabled dm_behavior
   \<and> fst (getTimeUntilAvailable 3600000 Dms (dmLimit one_per_hour)
          (new_ActivityTracker (trackerId linux_env acc1) (log_file warm_world))
          (log_file warm_world)) = 0
   \<and> \<not> isBlocked dm_behavior (preRunCheck dm_behavior one_per_hour 3600000
          (new_ActivityTracker (trackerId linux_env acc1) (log_file warm_world))
          (log_file warm_world))
   \<and> shouldClose (Some 1) dm_behavior one_per_hour 3600000
          (new_ActivityTracker (trackerId linux_env acc1) (log_file warm_world)) warm_world
   \<and> fmlookup (activeSessions (smartClose (Some 1) acc1 dm_behavior one_per_hour 3600000
          (new_ActivityTracker (trackerId linux_env acc1) (log_file warm_world)) 0 warm_world))
        ''acc1'' = None
   \<and> browser (clients (smartClose (Some 1) acc1 dm_behavior one_per_hour 3600000
          (new_ActivityTracker (trackerId linux_env acc1) (log_file warm_world)) 0 warm_world) 0)
        = None"
  by code_simp

end
